theory Spec2Isabelle
  imports Complex_Main "HOL-Library.Product_Lexorder" "HOL-Library.Multiset"
begin

section \<open>Python strings and the builtins the crawler calls\<close>

text \<open>
  A Python \<open>str\<close> is a sequence of Unicode code points, so it is modelled as a list
  of code points (the integers \<open>ord\<close> gives), not as a list of bytes: \<open>replace\<close>, \<open>strip\<close>
  and \<open>isdigit\<close> all work per code point. \<open>ustr\<close> reads an ASCII literal; the Korean
  labels of the source are given by their code points.
\<close>

type_synonym ustring = "int list"

definition ustr :: "string \<Rightarrow> ustring" where
  "ustr s = map of_char s"

definition won :: ustring where
  \<comment> \<open>the currency unit, U+C6D0\<close>
  "won = [0xC6D0]"

definition grade_label :: ustring where
  \<comment> \<open>the rating label, U+BCC4 U+C810\<close>
  "grade_label = [0xBCC4, 0xC810]"

definition review_label :: ustring where
  \<comment> \<open>the review label, U+B9AC U+BDF0\<close>
  "review_label = [0xB9AC, 0xBDF0]"

definition comma :: ustring where
  "comma = [0x2C]"

datatype exn =
  TimeoutError | StrictModeError | ValueError | NavigationError | UnicodeEncodeError

subsection \<open>\<open>str.strip\<close>\<close>

definition whitespace_points :: "int list" where
  \<comment> \<open>the code points for which \<open>str.isspace\<close> holds\<close>
  "whitespace_points =
     [0x9, 0xA, 0xB, 0xC, 0xD, 0x1C, 0x1D, 0x1E, 0x1F, 0x20, 0x85, 0xA0, 0x1680,
      0x2000, 0x2001, 0x2002, 0x2003, 0x2004, 0x2005, 0x2006, 0x2007, 0x2008, 0x2009,
      0x200A, 0x2028, 0x2029, 0x202F, 0x205F, 0x3000]"

definition isspace :: "int \<Rightarrow> bool" where
  "isspace c = (c \<in> set whitespace_points)"

definition strip :: "ustring \<Rightarrow> ustring" where
  "strip s = rev (dropWhile isspace (rev (dropWhile isspace s)))"

subsection \<open>\<open>str.replace\<close>\<close>

function replace_from :: "ustring \<Rightarrow> ustring \<Rightarrow> ustring \<Rightarrow> ustring" where
  "replace_from old new [] = []"
| "replace_from old new (c # cs) =
     (if old \<noteq> [] \<and> take (length old) (c # cs) = old
      then new @ replace_from old new (drop (length old) (c # cs))
      else c # replace_from old new cs)"
  by pat_completeness auto
termination
  by (relation "measure (\<lambda>(old, new, s). length s)") auto

definition replace :: "ustring \<Rightarrow> ustring \<Rightarrow> ustring \<Rightarrow> ustring" where
  \<comment> \<open>\<open>s.replace(old, new)\<close>: every occurrence, left to right, without overlap; an
      empty \<open>old\<close> matches before every character and at the end\<close>
  "replace old new s =
     (if old = [] then new @ concat (map (\<lambda>c. c # new) s) else replace_from old new s)"

subsection \<open>\<open>str.isdigit\<close> and \<open>int\<close>\<close>

text \<open>
  Two classes of the Unicode character database (version 14.0) decide \<open>isdigit\<close> and
  \<open>int\<close>. The decimal digits (category Nd) come in runs of ten, listed by their zero;
  \<open>int\<close> and \<open>float\<close> read any of them. \<open>isdigit\<close> accepts in addition the characters
  of numeric type Digit (superscripts, circled digits and the like), which \<open>int\<close> rejects.
\<close>

definition decimal_zeros :: "int list" where
  "decimal_zeros =
     [48, 1632, 1776, 1984, 2406, 2534, 2662, 2790, 2918, 3046, 3174, 3302, 3430, 3558,
      3664, 3792, 3872, 4160, 4240, 6112, 6160, 6470, 6608, 6784, 6800, 6992, 7088, 7232,
      7248, 42528, 43216, 43264, 43472, 43504, 43600, 44016, 65296, 66720, 68912, 69734,
      69872, 69942, 70096, 70384, 70736, 70864, 71248, 71360, 71472, 71904, 72016, 72784,
      73040, 73120, 92768, 92864, 93008, 120782, 120792, 120802, 120812, 120822, 123200,
      123632, 125264, 130032]"

definition decimal_value :: "int \<Rightarrow> int option" where
  "decimal_value c =
     (case find (\<lambda>z. z \<le> c \<and> c < z + 10) decimal_zeros of
        None \<Rightarrow> None
      | Some z \<Rightarrow> Some (c - z))"

definition other_digit_ranges :: "(int \<times> int) list" where
  "other_digit_ranges =
     [(178, 179), (185, 185), (4969, 4977), (6618, 6618), (8304, 8304), (8308, 8313),
      (8320, 8329), (9312, 9320), (9332, 9340), (9352, 9360), (9450, 9450), (9461, 9469),
      (9471, 9471), (10102, 10110), (10112, 10120), (10122, 10130), (68160, 68163),
      (69216, 69224), (69714, 69722), (127232, 127242)]"

definition isdigit_char :: "int \<Rightarrow> bool" where
  "isdigit_char c =
     (decimal_value c \<noteq> None \<or> list_ex (\<lambda>(lo, hi). lo \<le> c \<and> c \<le> hi) other_digit_ranges)"

definition isdigit :: "ustring \<Rightarrow> bool" where
  "isdigit s = (s \<noteq> [] \<and> list_all isdigit_char s)"

definition to_ascii_char :: "int \<Rightarrow> int" where
  \<comment> \<open>what \<open>int\<close> and \<open>float\<close> do to a character before they parse: a non-ASCII space
      becomes a blank, a non-ASCII decimal digit its ASCII digit, any other non-ASCII
      character a question mark (which no number contains)\<close>
  "to_ascii_char c =
     (if c < 127 then c
      else if isspace c then 0x20
      else case decimal_value c of Some d \<Rightarrow> 0x30 + d | None \<Rightarrow> 0x3F)"

definition ascii_space :: "int \<Rightarrow> bool" where
  "ascii_space c = (c = 0x20 \<or> (0x9 \<le> c \<and> c \<le> 0xD))"

definition strip_ascii :: "ustring \<Rightarrow> ustring" where
  "strip_ascii s = rev (dropWhile ascii_space (rev (dropWhile ascii_space s)))"

definition ascii_digit :: "int \<Rightarrow> bool" where
  "ascii_digit c = (0x30 \<le> c \<and> c \<le> 0x39)"

fun split_at :: "int \<Rightarrow> ustring \<Rightarrow> ustring list" where
  "split_at d [] = [] # []"
| "split_at d (c # cs) =
     (if c = d then [] # split_at d cs
      else case split_at d cs of [] \<Rightarrow> [c] # [] | g # gs \<Rightarrow> (c # g) # gs)"

definition digitpart :: "ustring \<Rightarrow> ustring option" where
  \<comment> \<open>a run of ASCII digits in which single underscores may stand between two digits;
      the result is the run without its underscores\<close>
  "digitpart s =
     (let gs = split_at 0x5F s
      in if list_all (\<lambda>g. g \<noteq> [] \<and> list_all ascii_digit g) gs then Some (concat gs) else None)"

definition digits_value :: "ustring \<Rightarrow> int" where
  "digits_value s = foldl (\<lambda>acc c. 10 * acc + (c - 0x30)) 0 s"

definition split_sign :: "ustring \<Rightarrow> bool \<times> ustring" where
  "split_sign t =
     (case t of
        [] \<Rightarrow> (False, [])
      | c # r \<Rightarrow> if c = 0x2D then (True, r) else if c = 0x2B then (False, r) else (False, t))"

definition int_max_str_digits :: nat where
  \<comment> \<open>the interpreter's limit on the digits of a string that \<open>int\<close> converts
      (\<open>sys.get_int_max_str_digits()\<close>), at its default\<close>
  "int_max_str_digits = 4300"

definition py_int :: "ustring \<Rightarrow> exn + int" where
  \<comment> \<open>\<open>int(s)\<close> in base ten: blanks around, an optional sign, digits. With more digits
      than the limit (the sign, the blanks and the underscores do not count) the
      conversion raises \<open>ValueError\<close>.\<close>
  "py_int s =
     (let (neg, body) = split_sign (strip_ascii (map to_ascii_char s))
      in case digitpart body of
           None \<Rightarrow> Inl ValueError
         | Some ds \<Rightarrow>
             if int_max_str_digits < length ds then Inl ValueError
             else Inr (if neg then - digits_value ds else digits_value ds))"

subsection \<open>\<open>urllib.parse.quote\<close> and the page URL\<close>

definition utf8 :: "int \<Rightarrow> exn + int list" where
  \<comment> \<open>the UTF-8 bytes of a code point; a surrogate cannot be encoded\<close>
  "utf8 c =
     (if c < 0x80 then Inr [c]
      else if c < 0x800 then Inr [0xC0 + c div 0x40, 0x80 + c mod 0x40]
      else if 0xD800 \<le> c \<and> c \<le> 0xDFFF then Inl UnicodeEncodeError
      else if c < 0x10000
        then Inr [0xE0 + c div 0x1000, 0x80 + c div 0x40 mod 0x40, 0x80 + c mod 0x40]
      else Inr [0xF0 + c div 0x40000, 0x80 + c div 0x1000 mod 0x40,
                0x80 + c div 0x40 mod 0x40, 0x80 + c mod 0x40])"

fun encode_utf8 :: "ustring \<Rightarrow> exn + int list" where
  "encode_utf8 [] = Inr []"
| "encode_utf8 (c # cs) =
     (case utf8 c of
        Inl e \<Rightarrow> Inl e
      | Inr bs \<Rightarrow> (case encode_utf8 cs of Inl e \<Rightarrow> Inl e | Inr rest \<Rightarrow> Inr (bs @ rest)))"

definition always_safe :: "int \<Rightarrow> bool" where
  \<comment> \<open>the bytes \<open>quote\<close> leaves as they are: letters, digits, \<open>_.-~\<close> and the safe \<open>/\<close>\<close>
  "always_safe b =
     ((0x41 \<le> b \<and> b \<le> 0x5A) \<or> (0x61 \<le> b \<and> b \<le> 0x7A) \<or> (0x30 \<le> b \<and> b \<le> 0x39)
      \<or> b = 0x5F \<or> b = 0x2E \<or> b = 0x2D \<or> b = 0x7E \<or> b = 0x2F)"

definition hex_digit :: "int \<Rightarrow> int" where
  "hex_digit d = (if d < 10 then 0x30 + d else 0x41 + (d - 10))"

definition quote_byte :: "int \<Rightarrow> ustring" where
  "quote_byte b = (if always_safe b then [b] else [0x25, hex_digit (b div 16), hex_digit (b mod 16)])"

definition quote :: "ustring \<Rightarrow> exn + ustring" where
  \<comment> \<open>\<open>quote(keyword)\<close>: the keyword is encoded in UTF-8, which raises for a lone
      surrogate, and every byte that is not safe is written as a percent escape\<close>
  "quote string =
     (case encode_utf8 string of
        Inl e \<Rightarrow> Inl e
      | Inr bs \<Rightarrow> Inr (concat (map quote_byte bs)))"

function decimal_digits :: "int \<Rightarrow> ustring" where
  "decimal_digits n =
     (if n < 10 then [0x30 + n] else decimal_digits (n div 10) @ [0x30 + n mod 10])"
  by pat_completeness auto
termination
  by (relation "measure nat") auto

declare decimal_digits.simps [simp del]

definition py_str :: "int \<Rightarrow> ustring" where
  \<comment> \<open>\<open>str(n)\<close> of an integer\<close>
  "py_str n = (if n < 0 then 0x2D # decimal_digits (- n) else decimal_digits n)"

definition base_url :: "ustring \<Rightarrow> ustring \<Rightarrow> ustring" where
  \<comment> \<open>\<open>base_url.format(query=..., page=...)\<close>\<close>
  "base_url query page =
     ustr ''https://search.shopping.naver.com/search/all?query='' @ query
       @ ustr ''&pagingIndex='' @ page @ ustr ''&pagingSize=40''"

definition page_url :: "ustring \<Rightarrow> int \<Rightarrow> exn + ustring" where
  \<comment> \<open>line 44: the URL of one page of results\<close>
  "page_url keyword page_idx =
     (case quote keyword of
        Inl e \<Rightarrow> Inl e
      | Inr q \<Rightarrow> Inr (base_url q (py_str page_idx)))"

subsection \<open>\<open>float\<close>\<close>

text \<open>
  A Python float is a binary64 number: a rational, one of the two infinities, or NaN.
  The sign of zero is not kept, since the crawler only compares floats. A comparison
  with NaN is false.
\<close>

datatype pyfloat = Finite rat | PInf | NInf | NaN

fun float_lt :: "pyfloat \<Rightarrow> pyfloat \<Rightarrow> bool" where
  "float_lt NaN y = False"
| "float_lt x NaN = False"
| "float_lt (Finite a) (Finite b) = (a < b)"
| "float_lt (Finite a) PInf = True"
| "float_lt (Finite a) NInf = False"
| "float_lt PInf y = False"
| "float_lt NInf NInf = False"
| "float_lt NInf y = True"

definition float_ge :: "pyfloat \<Rightarrow> pyfloat \<Rightarrow> bool" where
  \<comment> \<open>\<open>x >= y\<close>\<close>
  "float_ge x y = (x \<noteq> NaN \<and> y \<noteq> NaN \<and> \<not> float_lt x y)"

function bit_length :: "int \<Rightarrow> int" where
  "bit_length n = (if n \<le> 0 then 0 else 1 + bit_length (n div 2))"
  by pat_completeness auto
termination
  by (relation "measure nat") auto

declare bit_length.simps [simp del]

definition pow2 :: "int \<Rightarrow> rat" where
  "pow2 e = (if 0 \<le> e then 2 ^ nat e else 1 / 2 ^ nat (- e))"

definition round_binary64 :: "bool \<Rightarrow> int \<Rightarrow> int \<Rightarrow> pyfloat" where
  \<comment> \<open>the binary64 number nearest to \<open>m * 10 ^ k\<close> (for \<open>m \<ge> 0\<close>), ties to even, with the
      sign applied afterwards: 53 bits of mantissa, exponents from -1022 to 1023\<close>
  "round_binary64 neg m k =
     (if m = 0 then Finite 0
      else
        let a = m * 10 ^ nat k;
            b = 10 ^ nat (- k);
            d = bit_length a - bit_length b;
            e = (if (if 0 \<le> d then b * 2 ^ nat d \<le> a else b \<le> a * 2 ^ nat (- d))
                 then d else d - 1);
            s = max e (- 1022) - 52;
            n = (if s < 0 then a * 2 ^ nat (- s) else a);
            dn = (if s < 0 then b else b * 2 ^ nat s);
            q = n div dn;
            r = n mod dn;
            q' = (if 2 * r < dn then q
                  else if dn < 2 * r then q + 1
                  else if even q then q else q + 1)
        in if 971 < s \<or> (s = 971 \<and> 2 ^ 53 \<le> q') then (if neg then NInf else PInf)
           else Finite ((if neg then - 1 else 1) * of_int q' * pow2 s))"

fun underscores_ok :: "int \<Rightarrow> ustring \<Rightarrow> bool" where
  "underscores_ok prev [] = (prev \<noteq> 0x5F)"
| "underscores_ok prev (c # cs) =
     ((if c = 0x5F then ascii_digit prev else if prev = 0x5F then ascii_digit c else True)
      \<and> underscores_ok c cs)"

definition lower :: "int \<Rightarrow> int" where
  "lower c = (if 0x41 \<le> c \<and> c \<le> 0x5A then c + 0x20 else c)"

definition parse_exponent :: "ustring \<Rightarrow> int option" where
  "parse_exponent r =
     (case r of
        [] \<Rightarrow> Some 0
      | c # r' \<Rightarrow>
          if c = 0x65 \<or> c = 0x45
          then (let (neg, ds) = split_sign r'
                in if ds \<noteq> [] \<and> list_all ascii_digit ds
                   then Some (if neg then - digits_value ds else digits_value ds)
                   else None)
          else None)"

definition parse_number :: "ustring \<Rightarrow> (int \<times> int) option" where
  \<comment> \<open>digits, an optional point and more digits, an optional exponent; the result is
      the mantissa and the power of ten\<close>
  "parse_number r =
     (let ip = takeWhile ascii_digit r;
          r1 = dropWhile ascii_digit r;
          (fp, r2) = (case r1 of
                        [] \<Rightarrow> ([], [])
                      | c # r' \<Rightarrow> if c = 0x2E
                                  then (takeWhile ascii_digit r', dropWhile ascii_digit r')
                                  else ([], r1))
      in if ip @ fp = [] then None
         else case parse_exponent r2 of
                None \<Rightarrow> None
              | Some e \<Rightarrow> Some (digits_value (ip @ fp), e - int (length fp)))"

definition py_float :: "ustring \<Rightarrow> exn + pyfloat" where
  \<comment> \<open>\<open>float(s)\<close>\<close>
  "py_float s =
     (let t = strip_ascii (map to_ascii_char s)
      in if \<not> underscores_ok 0 t then Inl ValueError
         else
           let (neg, r) = split_sign (filter (\<lambda>c. c \<noteq> 0x5F) t);
               w = map lower r
           in if w = ustr ''inf'' \<or> w = ustr ''infinity'' then Inr (if neg then NInf else PInf)
              else if w = ustr ''nan'' then Inr NaN
              else case parse_number r of
                     None \<Rightarrow> Inl ValueError
                   | Some (m, k) \<Rightarrow> Inr (round_binary64 neg m k))"

section \<open>The rendered page\<close>

text \<open>
  The browser hands the crawler a rendered document: a tree of elements, each with a
  tag, its classes and the inner text the rendering engine reports for it. A selector
  list \<open>tag.class, tag.class\<close> matches an element that matches one of its members.
  Both lookups of one page read the same rendered document.
\<close>

datatype element =
  Element (tag: string) (classes: "string list") (inner_text: ustring) (children: "element list")

datatype selector = TagClass string string

fun matches :: "element \<Rightarrow> selector \<Rightarrow> bool" where
  "matches e (TagClass t c) = (tag e = t \<and> c \<in> set (classes e))"

fun descendants :: "element \<Rightarrow> element list" where
  "descendants (Element t cs txt kids) = concat (map (\<lambda>k. k # descendants k) kids)"

definition locator :: "element \<Rightarrow> selector list \<Rightarrow> element list" where
  \<comment> \<open>\<open>item.locator(sel)\<close>: the matching elements below \<open>item\<close>, in document order\<close>
  "locator item sel = filter (\<lambda>e. list_ex (matches e) sel) (descendants item)"

definition page_locator :: "element \<Rightarrow> selector list \<Rightarrow> element list" where
  \<comment> \<open>\<open>page.locator(sel).all()\<close>: the matching elements of the whole document\<close>
  "page_locator doc sel = filter (\<lambda>e. list_ex (matches e) sel) (doc # descendants doc)"

definition inner_text_of :: "element list \<Rightarrow> exn + ustring" where
  \<comment> \<open>\<open>locator.inner_text()\<close>: the locator must resolve to exactly one element; with
      none the call times out, with several it is a strict-mode violation\<close>
  "inner_text_of es =
     (case es of
        [] \<Rightarrow> Inl TimeoutError
      | [e] \<Rightarrow> Inr (inner_text e)
      | e # e' # rest \<Rightarrow> Inl StrictModeError)"

text \<open>
  Every lookup is a query that the crawler sends to the browser. The queries are recorded
  in the order in which they are sent, so that which lookups a run makes can be stated.
\<close>

type_synonym queries = "selector list list"

definition query_all :: "element \<Rightarrow> selector list \<Rightarrow> queries \<Rightarrow> element list \<times> queries" where
  \<comment> \<open>\<open>page.locator(sel).all()\<close>\<close>
  "query_all doc sel sent = (page_locator doc sel, sent @ [sel])"

definition query_text :: "element \<Rightarrow> selector list \<Rightarrow> queries \<Rightarrow> (exn + ustring) \<times> queries" where
  \<comment> \<open>\<open>item.locator(sel).inner_text()\<close>\<close>
  "query_text item sel sent = (inner_text_of (locator item sel), sent @ [sel])"

definition primary_selector :: "selector list" where
  "primary_selector =
     [TagClass ''div'' ''product_item__MDtDF'', TagClass ''div'' ''product_item__KZ02m'']"

definition fallback_selector :: "selector list" where
  "fallback_selector = [TagClass ''div'' ''product_item__MDtDF'']"

definition title_selector :: "selector list" where
  "title_selector = [TagClass ''a'' ''product_link__TrAac'']"

definition price_selector :: "selector list" where
  "price_selector = [TagClass ''span'' ''price_num__S2p_v'']"

definition grade_selector :: "selector list" where
  "grade_selector = [TagClass ''span'' ''product_grade__IzyU3'']"

definition review_selector :: "selector list" where
  "review_selector = [TagClass ''span'' ''product_review__a1z2V'']"

section \<open>\<open>crawl_naver_shopping\<close>\<close>

record product =
  name :: ustring
  price :: "int option"
  rating :: pyfloat
  reviews :: int

subsection \<open>The four extractions of one item block\<close>

text \<open>
  Each extraction is a lookup of one sub-element followed by the parsing of its inner
  text. The lookup and the parsing may raise; what the \<open>try\<close> block of the field makes
  of that is a function of the lookup's outcome.
\<close>

definition name_from :: "exn + ustring \<Rightarrow> exn + ustring" where
  "name_from lookup = (case lookup of Inl e \<Rightarrow> Inl e | Inr t \<Rightarrow> Inr (strip t))"

definition price_of_text :: "ustring \<Rightarrow> exn + int option" where
  \<comment> \<open>the body of the price \<open>try\<close> block, from the inner text on\<close>
  "price_of_text t =
     (let price_text = strip (replace won [] (replace comma [] t))
      in if isdigit price_text
         then (case py_int price_text of Inl e \<Rightarrow> Inl e | Inr v \<Rightarrow> Inr (Some v))
         else Inr None)"

definition price_from :: "exn + ustring \<Rightarrow> int option" where
  "price_from lookup =
     (case lookup of
        Inl e \<Rightarrow> None
      | Inr t \<Rightarrow> (case price_of_text t of Inl e \<Rightarrow> None | Inr p \<Rightarrow> p))"

definition rating_of_text :: "ustring \<Rightarrow> exn + pyfloat" where
  "rating_of_text t =
     (let rating_text = strip t
      in py_float (strip (replace grade_label [] rating_text)))"

definition rating_from :: "exn + ustring \<Rightarrow> pyfloat option" where
  "rating_from lookup =
     (case lookup of
        Inl e \<Rightarrow> None
      | Inr t \<Rightarrow> (case rating_of_text t of Inl e \<Rightarrow> None | Inr x \<Rightarrow> Some x))"

definition reviews_of_text :: "ustring \<Rightarrow> exn + int" where
  "reviews_of_text t =
     (let review_text = strip t;
          review_text = strip (replace comma [] (replace review_label [] review_text))
      in if isdigit review_text then py_int review_text else Inr 0)"

definition reviews_from :: "exn + ustring \<Rightarrow> int" where
  "reviews_from lookup =
     (case lookup of
        Inl e \<Rightarrow> 0
      | Inr t \<Rightarrow> (case reviews_of_text t of Inl e \<Rightarrow> 0 | Inr v \<Rightarrow> v))"

text \<open>What each extraction yields for an item block.\<close>

definition extract_name :: "element \<Rightarrow> exn + ustring" where
  "extract_name item = name_from (inner_text_of (locator item title_selector))"

definition extract_price :: "element \<Rightarrow> int option" where
  "extract_price item = price_from (inner_text_of (locator item price_selector))"

definition extract_rating :: "element \<Rightarrow> pyfloat option" where
  "extract_rating item = rating_from (inner_text_of (locator item grade_selector))"

definition extract_reviews :: "element \<Rightarrow> int" where
  "extract_reviews item = reviews_from (inner_text_of (locator item review_selector))"

subsection \<open>One item block, one page, all pages\<close>

record item_result =
  attempted :: queries
  appended :: "product option"

definition process_item :: "pyfloat \<Rightarrow> int \<Rightarrow> element \<Rightarrow> item_result" where
  \<comment> \<open>the body of the loop over the items (lines 55 to 107): \<open>attempted\<close> holds the
      lookups that were made, \<open>appended\<close> is the record added to the results, if any\<close>
  "process_item min_rating min_reviews item =
     (let (title, sent) = query_text item title_selector []
      in case name_from title of
           Inl e \<Rightarrow> \<lparr>attempted = sent, appended = None\<rparr>
         | Inr nm \<Rightarrow>
             let (price_text, sent) = query_text item price_selector sent;
                 pr = price_from price_text;
                 (grade_text, sent) = query_text item grade_selector sent;
                 rt = rating_from grade_text;
                 (review_text, sent) = query_text item review_selector sent;
                 rv = reviews_from review_text
             in \<lparr>attempted = sent,
                 appended =
                   (case rt of
                      None \<Rightarrow> None
                    | Some r \<Rightarrow>
                        if float_lt r min_rating \<or> rv < min_reviews then None
                        else Some \<lparr>name = nm, price = pr, rating = r, reviews = rv\<rparr>)\<rparr>)"

definition find_items :: "element \<Rightarrow> element list \<times> queries" where
  \<comment> \<open>lines 48 to 52: the item blocks of a page, and the lookups made to find them\<close>
  "find_items doc =
     (let (items, sent) = query_all doc primary_selector []
      in if items = [] then query_all doc fallback_selector sent else (items, sent))"

definition locate_items :: "element \<Rightarrow> element list" where
  "locate_items doc = fst (find_items doc)"

definition crawl_page :: "pyfloat \<Rightarrow> int \<Rightarrow> element \<Rightarrow> product list" where
  \<comment> \<open>the records one loaded page adds to the results\<close>
  "crawl_page min_rating min_reviews doc =
     List.map_filter (\<lambda>item. appended (process_item min_rating min_reviews item))
       (locate_items doc)"

text \<open>
  The site is a function from the URL to what \<open>page.goto\<close> does there: it raises, or
  the document is rendered. The loop builds the URL of each page and visits it once; an
  exception of the URL building or of \<open>page.goto\<close> is caught nowhere. The browser
  session itself (its launch, the settle delay, its closing) is taken to work.
\<close>

type_synonym site = "ustring \<Rightarrow> exn + element"

fun crawl_pages ::
  "site \<Rightarrow> ustring \<Rightarrow> pyfloat \<Rightarrow> int \<Rightarrow> int list \<Rightarrow> product list \<Rightarrow> exn + product list" where
  "crawl_pages goto keyword min_rating min_reviews [] results = Inr results"
| "crawl_pages goto keyword min_rating min_reviews (page_idx # rest) results =
     (case page_url keyword page_idx of
        Inl e \<Rightarrow> Inl e
      | Inr url \<Rightarrow>
          (case goto url of
             Inl e \<Rightarrow> Inl e
           | Inr doc \<Rightarrow>
               crawl_pages goto keyword min_rating min_reviews rest
                 (results @ crawl_page min_rating min_reviews doc)))"

definition crawl_naver_shopping ::
  "site \<Rightarrow> ustring \<Rightarrow> pyfloat \<Rightarrow> int \<Rightarrow> int \<Rightarrow> exn + product list" where
  "crawl_naver_shopping goto keyword min_rating min_reviews max_pages =
     crawl_pages goto keyword min_rating min_reviews [1..max_pages] []"

section \<open>The presentation sort of the entry point\<close>

definition price_key :: "product \<Rightarrow> bool \<times> int" where
  "price_key item = (price item = None, case price item of Some p \<Rightarrow> p | None \<Rightarrow> 999999999)"

definition sorted_by_price :: "product list \<Rightarrow> product list" where
  \<comment> \<open>\<open>sorted(data, key=...)\<close>: Python's sort is stable, and a stable sort has one result\<close>
  "sorted_by_price data = sort_key price_key data"

section \<open>What the parsed numbers are\<close>

text \<open>
  The integer that a run of decimal digits denotes, and the test for such a run. They
  state what the price and the review count are; the crawler itself goes through
  \<open>isdigit\<close> and \<open>int\<close>.
\<close>

definition decimal_number :: "ustring \<Rightarrow> int" where
  "decimal_number s =
     foldl (\<lambda>acc c. 10 * acc + (case decimal_value c of Some d \<Rightarrow> d | None \<Rightarrow> 0)) 0 s"

definition all_decimal :: "ustring \<Rightarrow> bool" where
  "all_decimal s = (s \<noteq> [] \<and> list_all (\<lambda>c. decimal_value c \<noteq> None) s)"

section \<open>Example pages\<close>

definition default_min_rating :: pyfloat where
  \<comment> \<open>the default \<open>min_rating=4.9\<close>: the float that the literal 4.9 is\<close>
  "default_min_rating = Finite (2758454771764429 / 562949953421312)"

definition pork_belly :: ustring where
  \<comment> \<open>the keyword of the entry point, U+C0BC U+ACB9 U+C0B4\<close>
  "pork_belly = [0xC0BC, 0xACB9, 0xC0B4]"

definition pork_belly_quoted :: ustring where
  \<comment> \<open>the keyword as \<open>quote\<close> writes it\<close>
  "pork_belly_quoted = ustr ''%EC%82%BC%EA%B2%B9%EC%82%B4''"

definition long_digit_run :: ustring where
  \<comment> \<open>4301 times the digit 1: one digit more than \<open>int\<close> converts\<close>
  "long_digit_run = replicate 4301 0x31"

definition price_on_request :: ustring where
  \<comment> \<open>a price text without digits, U+AC00 U+ACA9 U+BB38 U+C758\<close>
  "price_on_request = [0xAC00, 0xACA9, 0xBB38, 0xC758]"

definition no_reviews :: ustring where
  \<comment> \<open>the review label, a blank and U+C5C6 U+C74C\<close>
  "no_reviews = review_label @ [0x20, 0xC5C6, 0xC74C]"

definition product_card ::
  "string \<Rightarrow> ustring \<Rightarrow> ustring \<Rightarrow> ustring \<Rightarrow> ustring \<Rightarrow> element" where
  "product_card cls title price_text grade_text review_text =
     Element ''div'' [cls] []
       [Element ''a'' [''product_link__TrAac''] title [],
        Element ''span'' [''price_num__S2p_v''] price_text [],
        Element ''span'' [''product_grade__IzyU3''] grade_text [],
        Element ''span'' [''product_review__a1z2V''] review_text []]"

definition results_page :: "element list \<Rightarrow> element" where
  "results_page cards = Element ''html'' [] [] [Element ''body'' [] [] cards]"

definition card_a :: element where
  "card_a = product_card ''product_item__MDtDF'' (ustr '' A '') (ustr ''12,900'' @ won)
              (grade_label @ ustr ''4.95'') (review_label @ ustr '' 1,234'')"

definition card_b :: element where
  "card_b = product_card ''product_item__KZ02m'' (ustr ''B'') price_on_request
              (grade_label @ ustr ''5.0'') (review_label @ ustr '' 100'')"

definition card_c :: element where
  "card_c = product_card ''product_item__MDtDF'' (ustr ''C'') (ustr ''5,000'' @ won)
              (grade_label @ ustr ''4.9'') (review_label @ ustr '' 2,000'')"

definition card_low :: element where
  "card_low = product_card ''product_item__KZ02m'' (ustr ''L'') (ustr ''3,000'' @ won)
              (grade_label @ ustr ''4.8'') (review_label @ ustr '' 9,999'')"

definition card_nan :: element where
  \<comment> \<open>a card whose rating the page shows as NaN\<close>
  "card_nan = product_card ''product_item__MDtDF'' (ustr ''N'') (ustr ''9,900'' @ won)
              (grade_label @ ustr ''NaN'') (review_label @ ustr '' 250'')"

definition card_blank_title :: element where
  \<comment> \<open>a card whose title element is there, with blank text\<close>
  "card_blank_title = product_card ''product_item__MDtDF'' (ustr ''  '') (ustr ''7,000'' @ won)
              (grade_label @ ustr ''5.0'') (review_label @ ustr '' 300'')"

definition card_untitled :: element where
  \<comment> \<open>a card without a title element\<close>
  "card_untitled =
     Element ''div'' [''product_item__MDtDF''] []
       [Element ''span'' [''price_num__S2p_v''] (ustr ''7,000'' @ won) [],
        Element ''span'' [''product_grade__IzyU3''] (grade_label @ ustr ''5.0'') [],
        Element ''span'' [''product_review__a1z2V''] (review_label @ ustr '' 300'') []]"

definition card_faulty :: element where
  \<comment> \<open>a card with a title and nothing else\<close>
  "card_faulty =
     Element ''div'' [''product_item__MDtDF''] []
       [Element ''a'' [''product_link__TrAac''] (ustr ''F'') []]"

definition card_partial :: element where
  \<comment> \<open>a card without a price element, whose review text has a digit that \<open>int\<close> rejects\<close>
  "card_partial =
     Element ''div'' [''product_item__KZ02m''] []
       [Element ''a'' [''product_link__TrAac''] (ustr ''P'') [],
        Element ''span'' [''product_grade__IzyU3''] (grade_label @ ustr ''5.0'') [],
        Element ''span'' [''product_review__a1z2V''] [0xB2] []]"

definition card_unrated :: element where
  \<comment> \<open>a card whose rating text is no number\<close>
  "card_unrated = product_card ''product_item__MDtDF'' (ustr ''U'') (ustr ''7,000'' @ won)
              (ustr ''new'') (review_label @ ustr '' 300'')"

definition record_a :: product where
  "record_a = \<lparr>name = ustr ''A'', price = Some 12900,
                rating = Finite (5573204538870989 / 1125899906842624), reviews = 1234\<rparr>"

definition record_b :: product where
  "record_b = \<lparr>name = ustr ''B'', price = None, rating = Finite 5, reviews = 100\<rparr>"

definition record_c :: product where
  "record_c = \<lparr>name = ustr ''C'', price = Some 5000,
                rating = Finite (2758454771764429 / 562949953421312), reviews = 2000\<rparr>"

definition record_partial :: product where
  "record_partial = \<lparr>name = ustr ''P'', price = None, rating = Finite 5, reviews = 0\<rparr>"

definition record_nan :: product where
  "record_nan = \<lparr>name = ustr ''N'', price = Some 9900, rating = NaN, reviews = 250\<rparr>"

definition record_blank :: product where
  "record_blank = \<lparr>name = [], price = Some 7000, rating = Finite 5, reviews = 300\<rparr>"

definition page_one :: element where
  "page_one = results_page [card_a, card_low, card_b, card_c]"

definition page_two :: element where
  "page_two = results_page []"

definition scenario_site :: site where
  \<comment> \<open>page 1 of the keyword has three qualifying cards, every other page has no card\<close>
  "scenario_site url = (if Inr url = page_url pork_belly 1 then Inr page_one else Inr page_two)"

definition scenario_docs :: "int \<Rightarrow> element" where
  "scenario_docs page_idx = (if page_idx = 1 then page_one else page_two)"

definition failing_site :: site where
  \<comment> \<open>page 1 of the keyword loads, the navigation to any other page fails\<close>
  "failing_site url =
     (if Inr url = page_url pork_belly 1 then Inr page_one else Inl NavigationError)"

definition nan_site :: site where
  "nan_site url = Inr (results_page [card_nan])"

section \<open>Lemmas about the builtins\<close>

lemma find_SomeD: "find P xs = Some x \<Longrightarrow> P x \<and> x \<in> set xs"
  by (induction xs) (auto split: if_splits)

lemma decimal_value_range:
  assumes "decimal_value c = Some d"
  shows "0 \<le> d \<and> d \<le> 9"
proof -
  from assms obtain z where z: "find (\<lambda>z. z \<le> c \<and> c < z + 10) decimal_zeros = Some z" "d = c - z"
    unfolding decimal_value_def by (auto split: option.splits)
  from find_SomeD[OF z(1)] z(2) show ?thesis by simp
qed

lemma whitespace_points_not_digits:
  "list_all (\<lambda>w. decimal_value w = None
      \<and> \<not> list_ex (\<lambda>(lo, hi). lo \<le> w \<and> w \<le> hi) other_digit_ranges) whitespace_points"
  by code_simp

lemma whitespace_not_decimal: "isspace c \<Longrightarrow> decimal_value c = None"
  using whitespace_points_not_digits by (simp add: isspace_def list_all_iff)

lemma whitespace_not_other_digit:
  "isspace c \<Longrightarrow> \<not> list_ex (\<lambda>(lo, hi). lo \<le> c \<and> c \<le> hi) other_digit_ranges"
  using whitespace_points_not_digits by (simp add: isspace_def list_all_iff)

lemma decimal_below_127:
  assumes "decimal_value c = Some d" "c < 127"
  shows "c = 0x30 + d"
proof -
  from assms(1) obtain z where z: "find (\<lambda>z. z \<le> c \<and> c < z + 10) decimal_zeros = Some z" "d = c - z"
    unfolding decimal_value_def by (auto split: option.splits)
  then have "z \<in> set decimal_zeros" "z \<le> c"
    using find_SomeD[OF z(1)] by simp_all
  with assms(2) have "z = 48"
    unfolding decimal_zeros_def by auto
  with z show ?thesis by simp
qed

lemma to_ascii_decimal:
  assumes "decimal_value c = Some d"
  shows "to_ascii_char c = 0x30 + d"
  using assms decimal_below_127[OF assms] whitespace_not_decimal[of c]
  by (auto simp: to_ascii_char_def)

lemma to_ascii_other_digit:
  assumes "isdigit_char c" "decimal_value c = None"
  shows "to_ascii_char c = 0x3F"
proof -
  from assms have r: "list_ex (\<lambda>(lo, hi). lo \<le> c \<and> c \<le> hi) other_digit_ranges"
    by (simp add: isdigit_char_def)
  then have "\<not> c < 127"
    unfolding other_digit_ranges_def by auto
  moreover from r have "\<not> isspace c"
    using whitespace_not_other_digit by blast
  ultimately show ?thesis
    using assms(2) by (simp add: to_ascii_char_def)
qed


lemma strip_ascii_id:
  assumes "\<And>c. c \<in> set t \<Longrightarrow> \<not> ascii_space c"
  shows "strip_ascii t = t"
proof -
  have a: "dropWhile ascii_space t = t"
    using assms by (cases t) auto
  have "dropWhile ascii_space (rev t) = rev t"
    using assms by (cases "rev t") (auto dest: arg_cong[where f = set])
  with a show ?thesis by (simp add: strip_ascii_def)
qed

lemma split_at_no_delim: "d \<notin> set t \<Longrightarrow> split_at d t = [t]"
  by (induction t) auto

lemma split_at_covers: "c \<in> set t \<Longrightarrow> c \<noteq> d \<Longrightarrow> \<exists>g \<in> set (split_at d t). c \<in> set g"
  by (induction t) (auto split: list.splits)

lemma digitpart_digits:
  assumes "t \<noteq> []" "list_all ascii_digit t"
  shows "digitpart t = Some t"
proof -
  have "0x5F \<notin> set t"
    using assms(2) by (auto simp: list_all_iff ascii_digit_def)
  then show ?thesis
    using assms by (simp add: digitpart_def split_at_no_delim)
qed

lemma digitpart_bad_char:
  assumes "c \<in> set t" "\<not> ascii_digit c" "c \<noteq> 0x5F"
  shows "digitpart t = None"
proof -
  from split_at_covers[OF assms(1,3)] obtain g where "g \<in> set (split_at 0x5F t)" "c \<in> set g"
    by blast
  with assms(2) have "\<not> list_all (\<lambda>g. g \<noteq> [] \<and> list_all ascii_digit g) (split_at 0x5F t)"
    by (auto simp: list_all_iff)
  then show ?thesis by (simp add: digitpart_def)
qed

lemma digits_value_to_ascii:
  assumes "list_all (\<lambda>c. decimal_value c \<noteq> None) s"
  shows "foldl (\<lambda>acc c. 10 * acc + (c - 0x30)) a (map to_ascii_char s)
       = foldl (\<lambda>acc c. 10 * acc + (case decimal_value c of Some d \<Rightarrow> d | None \<Rightarrow> 0)) a s"
  using assms
proof (induction s arbitrary: a)
  case Nil
  then show ?case by simp
next
  case (Cons c s)
  then obtain d where d: "decimal_value c = Some d" by auto
  from Cons show ?case
    by (simp add: d to_ascii_decimal[OF d])
qed

lemma split_sign_plain: "t \<noteq> [] \<Longrightarrow> hd t \<noteq> 0x2D \<Longrightarrow> hd t \<noteq> 0x2B \<Longrightarrow> split_sign t = (False, t)"
  by (cases t) (auto simp: split_sign_def)

lemma py_int_decimal:
  assumes "all_decimal s"
  shows "py_int s =
    (if int_max_str_digits < length s then Inl ValueError else Inr (decimal_number s))"
proof -
  let ?t = "map to_ascii_char s"
  from assms have ne: "s \<noteq> []" and dec: "list_all (\<lambda>c. decimal_value c \<noteq> None) s"
    by (simp_all add: all_decimal_def)
  have digit: "ascii_digit c" if "c \<in> set ?t" for c
  proof -
    from that obtain x where x: "x \<in> set s" "c = to_ascii_char x" by auto
    with dec obtain d where d: "decimal_value x = Some d" by (auto simp: list_all_iff)
    from decimal_value_range[OF d] to_ascii_decimal[OF d] x(2) show ?thesis
      by (simp add: ascii_digit_def)
  qed
  then have all: "list_all ascii_digit ?t" by (simp add: list_all_iff)
  have nospace: "\<not> ascii_space c" if "c \<in> set ?t" for c
    using digit[OF that] by (auto simp: ascii_digit_def ascii_space_def)
  have "strip_ascii ?t = ?t"
    by (rule strip_ascii_id) (rule nospace)
  moreover have "hd ?t \<in> set ?t"
    using ne by (cases s) simp_all
  then have "split_sign ?t = (False, ?t)"
    using ne digit[of "hd ?t"] by (intro split_sign_plain) (simp_all add: ascii_digit_def)
  moreover have "digitpart ?t = Some ?t"
    using ne all by (intro digitpart_digits) simp_all
  ultimately show ?thesis
    using digits_value_to_ascii[OF dec, of 0]
    by (simp add: py_int_def digits_value_def decimal_number_def)
qed

lemma py_int_other_digit:
  assumes "isdigit s" "\<not> all_decimal s"
  shows "py_int s = Inl ValueError"
proof -
  let ?t = "map to_ascii_char s"
  from assms have ne: "s \<noteq> []" and dig: "\<And>c. c \<in> set s \<Longrightarrow> isdigit_char c"
    by (simp_all add: isdigit_def list_all_iff)
  from assms obtain x where x: "x \<in> set s" "decimal_value x = None"
    by (auto simp: all_decimal_def isdigit_def list_all_iff)
  have shape: "ascii_digit c \<or> c = 0x3F" if "c \<in> set ?t" for c
  proof -
    from that obtain y where y: "y \<in> set s" "c = to_ascii_char y" by auto
    show ?thesis
    proof (cases "decimal_value y")
      case None
      with to_ascii_other_digit[OF dig[OF y(1)]] y(2) show ?thesis by simp
    next
      case (Some d)
      from decimal_value_range[OF Some] to_ascii_decimal[OF Some] y(2) show ?thesis
        by (simp add: ascii_digit_def)
    qed
  qed
  have q: "0x3F \<in> set ?t"
    using x to_ascii_other_digit[OF dig[OF x(1)] x(2)] by force
  have nospace: "\<not> ascii_space c" if "c \<in> set ?t" for c
    using shape[OF that] by (auto simp: ascii_digit_def ascii_space_def)
  have "strip_ascii ?t = ?t"
    by (rule strip_ascii_id) (rule nospace)
  moreover have "hd ?t \<in> set ?t"
    using ne by (cases s) simp_all
  then have "split_sign ?t = (False, ?t)"
    using ne shape[of "hd ?t"] by (intro split_sign_plain) (auto simp: ascii_digit_def)
  moreover have "digitpart ?t = None"
    using q by (rule digitpart_bad_char) (simp_all add: ascii_digit_def)
  ultimately show ?thesis
    by (simp add: py_int_def)
qed

lemma all_decimal_isdigit: "all_decimal s \<Longrightarrow> isdigit s"
  by (auto simp: all_decimal_def isdigit_def isdigit_char_def list_all_iff)

lemma decimal_number_nonneg: "0 \<le> decimal_number s"
proof -
  have "0 \<le> a \<Longrightarrow> 0 \<le> foldl (\<lambda>acc c. 10 * acc + (case decimal_value c of Some d \<Rightarrow> d | None \<Rightarrow> 0)) a s" for a
  proof (induction s arbitrary: a)
    case Nil
    then show ?case by simp
  next
    case (Cons c s)
    show ?case
      using Cons.prems decimal_value_range[of c]
      by (auto intro!: Cons.IH split: option.splits)
  qed
  then show ?thesis by (simp add: decimal_number_def)
qed

lemma replace_from_spaces:
  assumes "old \<noteq> []" "\<not> isspace (hd old)" "\<And>c. c \<in> set ws \<Longrightarrow> isspace c"
  shows "replace_from old new (ws @ xs) = ws @ replace_from old new xs"
  using assms(3)
proof (induction ws)
  case Nil
  then show ?case by simp
next
  case (Cons c ws)
  have "take (length old) (c # ws @ xs) \<noteq> old"
  proof
    assume "take (length old) (c # ws @ xs) = old"
    then have "hd old = c"
      using assms(1) by (cases old) auto
    with Cons.prems assms(2) show False by simp
  qed
  with Cons show ?case by simp
qed

lemma take_append_spaces:
  assumes "\<And>c. c \<in> set old \<Longrightarrow> \<not> isspace c" "\<And>c. c \<in> set ws \<Longrightarrow> isspace c"
  shows "take (length old) (xs @ ws) = old \<longleftrightarrow> take (length old) xs = old"
proof (cases "length old \<le> length xs")
  case True
  then show ?thesis by simp
next
  case False
  have short: "take (length old) xs \<noteq> old"
  proof
    assume "take (length old) xs = old"
    then have "length (take (length old) xs) = length old" by simp
    with False show False by simp
  qed
  have "take (length old) (xs @ ws) \<noteq> old"
  proof
    assume eq: "take (length old) (xs @ ws) = old"
    then have "length (take (length old) (xs @ ws)) = length old" by simp
    with False have ws: "ws \<noteq> []" by auto
    from False have lt: "length xs < length old" by simp
    from eq lt obtain k where k: "0 < k" "old = xs @ take k ws"
      by (auto intro: that[of "length old - length xs"])
    have "hd ws \<in> set (take k ws)"
      using ws k(1) by (cases ws; cases k) simp_all
    with k(2) have "hd ws \<in> set old"
      by (metis Un_iff set_append)
    moreover have "hd ws \<in> set ws"
      using ws by simp
    ultimately show False
      using assms by blast
  qed
  with short show ?thesis by simp
qed

lemma replace_from_trailing_spaces:
  assumes "old \<noteq> []" "\<And>c. c \<in> set old \<Longrightarrow> \<not> isspace c" "\<And>c. c \<in> set ws \<Longrightarrow> isspace c"
  shows "replace_from old new (xs @ ws) = replace_from old new xs @ ws"
  using assms
proof (induction old new xs rule: replace_from.induct)
  case (1 old new)
  have "\<not> isspace (hd old)"
    using "1.prems"(1,2) by simp
  from replace_from_spaces[OF "1.prems"(1) this "1.prems"(3), where new = new and xs = "[]"]
  show ?case by simp
next
  case (2 old new c cs)
  have iff: "take (length old) ((c # cs) @ ws) = old \<longleftrightarrow> take (length old) (c # cs) = old"
    using "2.prems"(2,3) by (rule take_append_spaces)
  show ?case
  proof (cases "take (length old) (c # cs) = old")
    case True
    then have "length (take (length old) (c # cs)) = length old" by simp
    then have len: "length old \<le> length (c # cs)" by simp
    then have "length old - length (c # cs) = 0" by simp
    then have "drop (length old) ((c # cs) @ ws) = drop (length old) (c # cs) @ ws"
      by (simp only: drop_append drop_0)
    moreover have "replace_from old new (drop (length old) (c # cs) @ ws)
        = replace_from old new (drop (length old) (c # cs)) @ ws"
      using "2.IH"(1) True "2.prems" by blast
    moreover have "take (length old) (c # cs @ ws) = old"
      using iff True by simp
    ultimately show ?thesis
      using True "2.prems"(1) by simp
  next
    case False
    moreover have "take (length old) (c # cs @ ws) \<noteq> old"
      using iff False by simp
    moreover have "replace_from old new (cs @ ws) = replace_from old new cs @ ws"
      using "2.IH"(2) False "2.prems" by blast
    ultimately show ?thesis by simp
  qed
qed

lemma strip_decompose:
  "\<exists>pre post. t = pre @ strip t @ post \<and> list_all isspace pre \<and> list_all isspace post"
proof -
  let ?u = "dropWhile isspace t"
  have "rev (dropWhile isspace (rev ?u)) @ rev (takeWhile isspace (rev ?u))
      = rev (takeWhile isspace (rev ?u) @ dropWhile isspace (rev ?u))"
    by (simp only: rev_append)
  also have "\<dots> = rev (rev ?u)"
    by (simp only: takeWhile_dropWhile_id)
  also have "\<dots> = ?u"
    by (simp only: rev_rev_ident)
  finally have u: "?u = strip t @ rev (takeWhile isspace (rev ?u))"
    by (simp only: strip_def)
  have "t = takeWhile isspace t @ ?u" by simp
  with u have "t = takeWhile isspace t @ strip t @ rev (takeWhile isspace (rev ?u))"
    by simp
  moreover have "list_all isspace (takeWhile isspace t)"
    by (auto simp: list_all_iff dest: set_takeWhileD)
  moreover have "list_all isspace (rev (takeWhile isspace (rev ?u)))"
    by (auto simp: list_all_iff dest: set_takeWhileD)
  ultimately show ?thesis by blast
qed

lemma strip_padded:
  assumes "list_all isspace pre" "list_all isspace post"
  shows "strip (pre @ xs @ post) = strip xs"
proof -
  have a: "dropWhile isspace (pre @ xs @ post) = dropWhile isspace (xs @ post)"
    by (rule dropWhile_append2) (use assms(1) in \<open>auto simp: list_all_iff\<close>)
  have b: "dropWhile isspace (rev post @ ys) = dropWhile isspace ys" for ys
    by (rule dropWhile_append2) (use assms(2) in \<open>auto simp: list_all_iff\<close>)
  show ?thesis
  proof (cases "list_all isspace xs")
    case True
    then have e: "dropWhile isspace (xs @ post) = []" "dropWhile isspace xs = []"
      using assms(2) by (simp_all add: dropWhile_eq_Nil_conv list_all_iff)
    show ?thesis unfolding strip_def a e by simp
  next
    case False
    then obtain x where "x \<in> set xs" "\<not> isspace x"
      by (auto simp: list_all_iff)
    then have e: "dropWhile isspace (xs @ post) = dropWhile isspace xs @ post"
      by (rule dropWhile_append1)
    show ?thesis unfolding strip_def a e by (simp add: b)
  qed
qed

lemma replace_padded:
  assumes "old \<noteq> []" "\<And>c. c \<in> set old \<Longrightarrow> \<not> isspace c"
    "list_all isspace pre" "list_all isspace post"
  shows "replace old new (pre @ xs @ post) = pre @ replace old new xs @ post"
proof -
  have "\<not> isspace (hd old)" using assms(1,2) by simp
  then have "replace_from old new (pre @ xs @ post) = pre @ replace_from old new (xs @ post)"
    using assms(1,3) by (intro replace_from_spaces) (auto simp: list_all_iff)
  also have "replace_from old new (xs @ post) = replace_from old new xs @ post"
    using assms(1,2,4) by (intro replace_from_trailing_spaces) (auto simp: list_all_iff)
  finally show ?thesis using assms(1) by (simp add: replace_def)
qed

lemma strip_replace_strip:
  assumes "old \<noteq> []" "\<And>c. c \<in> set old \<Longrightarrow> \<not> isspace c"
  shows "strip (replace old new (strip t)) = strip (replace old new t)"
proof -
  from strip_decompose[of t] obtain pre post where
    t: "t = pre @ strip t @ post" and ws: "list_all isspace pre" "list_all isspace post"
    by blast
  have "replace old new t = replace old new (pre @ strip t @ post)"
    using t by simp
  also have "\<dots> = pre @ replace old new (strip t) @ post"
    using assms ws by (rule replace_padded)
  finally show ?thesis
    using ws by (simp add: strip_padded)
qed

lemma strip_replace2_strip:
  assumes "old \<noteq> []" "\<And>c. c \<in> set old \<Longrightarrow> \<not> isspace c"
    "old' \<noteq> []" "\<And>c. c \<in> set old' \<Longrightarrow> \<not> isspace c"
  shows "strip (replace old' new' (replace old new (strip t))) = strip (replace old' new' (replace old new t))"
proof -
  from strip_decompose[of t] obtain pre post where
    t: "t = pre @ strip t @ post" and ws: "list_all isspace pre" "list_all isspace post"
    by blast
  have "replace old new t = replace old new (pre @ strip t @ post)"
    using t by simp
  also have "\<dots> = pre @ replace old new (strip t) @ post"
    using assms(1,2) ws by (rule replace_padded)
  finally have "replace old' new' (replace old new t)
      = pre @ replace old' new' (replace old new (strip t)) @ post"
    using assms(3,4) ws by (simp add: replace_padded)
  then show ?thesis
    using ws by (simp add: strip_padded)
qed

lemma labels_no_space:
  "grade_label \<noteq> []" "\<And>c. c \<in> set grade_label \<Longrightarrow> \<not> isspace c"
  "review_label \<noteq> []" "\<And>c. c \<in> set review_label \<Longrightarrow> \<not> isspace c"
  "comma \<noteq> []" "\<And>c. c \<in> set comma \<Longrightarrow> \<not> isspace c"
  by (auto simp: grade_label_def review_label_def comma_def isspace_def whitespace_points_def)

section \<open>Lemmas about the crawl\<close>

lemma page_url_quoted: "quote kw = Inr q \<Longrightarrow> page_url kw i = Inr (base_url q (py_str i))"
  by (simp add: page_url_def)

lemma crawl_pages_all_loaded:
  assumes "quote kw = Inr q" "\<forall>i \<in> set idxs. goto (base_url q (py_str i)) = Inr (docs i)"
  shows "crawl_pages goto kw mr mv idxs acc
       = Inr (acc @ concat (map (\<lambda>i. crawl_page mr mv (docs i)) idxs))"
  using assms(2) by (induction idxs arbitrary: acc) (simp_all add: page_url_quoted[OF assms(1)])

lemma crawl_pages_first_failure:
  assumes "quote kw = Inr q" "\<forall>j \<in> set pre. goto (base_url q (py_str j)) = Inr (docs j)"
    "goto (base_url q (py_str i)) = Inl e"
  shows "crawl_pages goto kw mr mv (pre @ i # post) acc = Inl e"
  using assms(2,3) by (induction pre arbitrary: acc) (simp_all add: page_url_quoted[OF assms(1)])

lemma crawl_pages_no_url:
  assumes "quote kw = Inl e" "idxs \<noteq> []"
  shows "crawl_pages goto kw mr mv idxs acc = Inl e"
  using assms by (cases idxs) (simp_all add: page_url_def)

lemma matches_fallback_primary:
  "list_ex (matches e) fallback_selector \<Longrightarrow> list_ex (matches e) primary_selector"
  by (simp add: fallback_selector_def primary_selector_def)

lemma fallback_within_primary:
  "set (page_locator doc fallback_selector) \<subseteq> set (page_locator doc primary_selector)"
  using matches_fallback_primary by (auto simp: page_locator_def)

lemma fallback_empty:
  "page_locator doc primary_selector = [] \<Longrightarrow> page_locator doc fallback_selector = []"
  using fallback_within_primary[of doc] by auto

lemma find_items_cases:
  "find_items doc =
     (if page_locator doc primary_selector = []
      then (page_locator doc fallback_selector, [primary_selector, fallback_selector])
      else (page_locator doc primary_selector, [primary_selector]))"
  by (simp add: find_items_def query_all_def)

lemma locate_items_cases:
  "locate_items doc =
     (if page_locator doc primary_selector = [] then page_locator doc fallback_selector
      else page_locator doc primary_selector)"
  by (simp add: locate_items_def find_items_cases)

lemma process_item_cases:
  "process_item mr mv item =
     (case extract_name item of
        Inl e \<Rightarrow> \<lparr>attempted = [title_selector], appended = None\<rparr>
      | Inr nm \<Rightarrow>
          \<lparr>attempted = [title_selector, price_selector, grade_selector, review_selector],
           appended =
             (case extract_rating item of
                None \<Rightarrow> None
              | Some r \<Rightarrow>
                  if float_lt r mr \<or> extract_reviews item < mv then None
                  else Some \<lparr>name = nm, price = extract_price item, rating = r,
                              reviews = extract_reviews item\<rparr>)\<rparr>)"
  unfolding process_item_def query_text_def extract_name_def extract_price_def
    extract_rating_def extract_reviews_def
  by (simp add: Let_def split: sum.splits option.splits)

lemma appended_iff:
  "appended (process_item mr mv item) = Some r \<longleftrightarrow>
     (\<exists>nm x. extract_name item = Inr nm \<and> extract_rating item = Some x
        \<and> \<not> float_lt x mr \<and> \<not> extract_reviews item < mv
        \<and> r = \<lparr>name = nm, price = extract_price item, rating = x,
                 reviews = extract_reviews item\<rparr>)"
  by (auto simp: process_item_cases split: sum.splits option.splits)

lemma kept_iff_without_nan:
  assumes "extract_name item = Inr nm" "mr \<noteq> NaN" "extract_rating item \<noteq> Some NaN"
  shows "appended (process_item mr mv item) \<noteq> None \<longleftrightarrow>
     (\<exists>x. extract_rating item = Some x \<and> float_ge x mr \<and> mv \<le> extract_reviews item)"
  using assms
  by (cases "extract_rating item")
     (auto simp: process_item_cases float_ge_def split: sum.splits option.splits)

section \<open>Lemmas about the sort\<close>

lemma sorted_split:
  assumes "sorted (map f ys)" "\<And>x y. P x \<Longrightarrow> \<not> P y \<Longrightarrow> f x < f y"
  shows "ys = filter P ys @ filter (\<lambda>y. \<not> P y) ys"
  using assms(1)
proof (induction ys)
  case Nil
  then show ?case by simp
next
  case (Cons y ys)
  then have le: "\<And>z. z \<in> set ys \<Longrightarrow> f y \<le> f z" and IH: "ys = filter P ys @ filter (\<lambda>y. \<not> P y) ys"
    by auto
  show ?case
  proof (cases "P y")
    case True
    with IH show ?thesis by simp
  next
    case False
    have "\<not> P z" if "z \<in> set ys" for z
    proof
      assume "P z"
      from assms(2)[OF this False] le[OF that] show False by simp
    qed
    then have "filter P ys = []" "filter (\<lambda>y. \<not> P y) ys = ys"
      by (simp_all add: filter_empty_conv filter_id_conv)
    with False show ?thesis by simp
  qed
qed

lemma price_key_eq: "price_key r = price_key r' \<longleftrightarrow> price r = price r'"
  by (auto simp: price_key_def split: option.splits)

lemma sorted_present_prices: "sorted (map price_key ys) \<Longrightarrow> sorted (List.map_filter price ys)"
proof (induction ys)
  case Nil
  then show ?case by simp
next
  case (Cons y ys)
  then have IH: "sorted (List.map_filter price ys)" and le: "\<And>z. z \<in> set ys \<Longrightarrow> price_key y \<le> price_key z"
    by auto
  show ?case
  proof (cases "price y")
    case None
    with IH show ?thesis by simp
  next
    case (Some p)
    have "p \<le> q" if "q \<in> set (List.map_filter price ys)" for q
    proof -
      from that obtain z where z: "z \<in> set ys" "price z = Some q"
        by (auto simp: map_filter_def)
      from le[OF z(1)] Some z(2) show ?thesis by (simp add: price_key_def)
    qed
    with IH Some show ?thesis by simp
  qed
qed

section \<open>Lemmas about the three parsed fields\<close>

lemma won_no_space: "won \<noteq> []" "\<And>c. c \<in> set won \<Longrightarrow> \<not> isspace c"
  by (auto simp: won_def isspace_def whitespace_points_def)

lemma digits_then_int:
  "(if isdigit r then py_int r else Inr d) =
     (if all_decimal r \<and> length r \<le> 4300 then Inr (decimal_number r)
      else if isdigit r then Inl ValueError else Inr d)"
proof (cases "all_decimal r")
  case True
  with py_int_decimal[OF True] all_decimal_isdigit[OF True] show ?thesis
    by (auto simp: int_max_str_digits_def)
next
  case False
  then show ?thesis
    using py_int_other_digit[of r] by auto
qed

lemma price_from_text:
  "price_from (Inr t) =
     (let r = strip (replace won [] (replace comma [] t))
      in if all_decimal r \<and> length r \<le> 4300 then Some (decimal_number r) else None)"
proof -
  let ?r = "strip (replace won [] (replace comma [] t))"
  show ?thesis
  proof (cases "all_decimal ?r")
    case True
    from py_int_decimal[OF True] all_decimal_isdigit[OF True] True show ?thesis
      by (auto simp: price_from_def price_of_text_def Let_def int_max_str_digits_def)
  next
    case False
    show ?thesis
    proof (cases "isdigit ?r")
      case True
      with False py_int_other_digit[OF True False] show ?thesis
        by (simp add: price_from_def price_of_text_def Let_def)
    next
      case False
      with \<open>\<not> all_decimal ?r\<close> show ?thesis
        by (simp add: price_from_def price_of_text_def Let_def)
    qed
  qed
qed

lemma reviews_from_text:
  "reviews_from (Inr t) =
     (let r = strip (replace comma [] (replace review_label [] t))
      in if all_decimal r \<and> length r \<le> 4300 then decimal_number r else 0)"
proof -
  let ?r = "strip (replace comma [] (replace review_label [] (strip t)))"
  have same: "?r = strip (replace comma [] (replace review_label [] t))"
    using labels_no_space(3,4,5,6) by (rule strip_replace2_strip)
  have "reviews_of_text t =
      (if all_decimal ?r \<and> length ?r \<le> 4300 then Inr (decimal_number ?r)
       else if isdigit ?r then Inl ValueError else Inr 0)"
    using digits_then_int[of ?r 0] by (simp add: reviews_of_text_def Let_def)
  then have "reviews_from (Inr t)
      = (if all_decimal ?r \<and> length ?r \<le> 4300 then decimal_number ?r else 0)"
    by (simp add: reviews_from_def)
  with same show ?thesis by (simp add: Let_def)
qed

lemma no_match_unchanged:
  assumes "old \<noteq> []" "hd old \<notin> set s"
  shows "replace old new s = s"
proof -
  have "replace_from old new s = s"
    using assms(2)
  proof (induction s)
    case Nil
    then show ?case by simp
  next
    case (Cons c cs)
    have "take (length old) (c # cs) \<noteq> old"
    proof
      assume "take (length old) (c # cs) = old"
      then have "hd old = c"
        using assms(1) by (cases old) auto
      with Cons.prems show False by simp
    qed
    with Cons show ?case by simp
  qed
  with assms(1) show ?thesis by (simp add: replace_def)
qed

lemma strip_unchanged:
  assumes "\<And>c. c \<in> set s \<Longrightarrow> \<not> isspace c"
  shows "strip s = s"
proof -
  have a: "dropWhile isspace s = s"
    using assms by (cases s) auto
  have "dropWhile isspace (rev s) = rev s"
    using assms by (cases "rev s") (auto dest: arg_cong[where f = set])
  with a show ?thesis by (simp add: strip_def)
qed

lemma digit_run:
  assumes "decimal_value c \<noteq> None" "0 < n"
  shows "all_decimal (replicate n c)"
    and "strip (replace won [] (replace comma [] (replicate n c))) = replicate n c"
    and "strip (replace comma [] (replace review_label [] (replicate n c))) = replicate n c"
proof -
  show "all_decimal (replicate n c)"
    using assms by (simp add: all_decimal_def list_all_iff)
  have nosp: "\<not> isspace c"
    using assms(1) whitespace_not_decimal[of c] by auto
  have "decimal_value 0x2C = None" "decimal_value 0xC6D0 = None" "decimal_value 0xB9AC = None"
    by code_simp+
  with assms(1) have ne: "c \<noteq> 0x2C" "c \<noteq> 0xC6D0" "c \<noteq> 0xB9AC"
    by auto
  have r1: "replace comma new (replicate n c) = replicate n c" for new
    using ne by (intro no_match_unchanged) (simp_all add: comma_def)
  have r2: "replace won new (replicate n c) = replicate n c" for new
    using ne by (intro no_match_unchanged) (simp_all add: won_def)
  have r3: "replace review_label new (replicate n c) = replicate n c" for new
    using ne by (intro no_match_unchanged) (simp_all add: review_label_def)
  have st: "strip (replicate n c) = replicate n c"
    using nosp by (intro strip_unchanged) simp
  show "strip (replace won [] (replace comma [] (replicate n c))) = replicate n c"
    by (simp add: r1 r2 st)
  show "strip (replace comma [] (replace review_label [] (replicate n c))) = replicate n c"
    by (simp add: r1 r3 st)
qed

lemma decimal_number_replicate_pos:
  assumes "decimal_value c = Some d" "0 < d" "0 < n"
  shows "0 < decimal_number (replicate n c)"
proof -
  let ?f = "\<lambda>acc c. 10 * acc + (case decimal_value c of Some d \<Rightarrow> d | None \<Rightarrow> 0)"
  have step: "0 < foldl ?f a (replicate m c)" if "0 < a" for a :: int and m
    using that
  proof (induction m arbitrary: a)
    case 0
    then show ?case by simp
  next
    case (Suc m)
    have "0 < 10 * a + d"
      using Suc.prems assms(2) by simp
    then show ?case
      using Suc.IH[of "10 * a + d"] by (simp add: assms(1))
  qed
  from assms(3) obtain m where n: "n = Suc m"
    by (cases n) auto
  have "decimal_number (replicate n c) = foldl ?f d (replicate m c)"
    by (simp add: decimal_number_def n assms(1))
  with step[OF assms(2)] show ?thesis by simp
qed

lemma long_digit_run_facts:
  "all_decimal long_digit_run"
  "strip (replace won [] (replace comma [] long_digit_run)) = long_digit_run"
  "strip (replace comma [] (replace review_label [] long_digit_run)) = long_digit_run"
  "length long_digit_run = 4301"
  "0 < decimal_number long_digit_run"
proof -
  have d: "decimal_value 0x31 = Some 1"
    by code_simp
  then have d': "decimal_value 0x31 \<noteq> None"
    by simp
  have n: "(0::nat) < 4301"
    by simp
  show "all_decimal long_digit_run"
    unfolding long_digit_run_def by (rule digit_run(1)[OF d' n])
  show "strip (replace won [] (replace comma [] long_digit_run)) = long_digit_run"
    unfolding long_digit_run_def by (rule digit_run(2)[OF d' n])
  show "strip (replace comma [] (replace review_label [] long_digit_run)) = long_digit_run"
    unfolding long_digit_run_def by (rule digit_run(3)[OF d' n])
  show "length long_digit_run = 4301"
    unfolding long_digit_run_def by (rule length_replicate)
  show "0 < decimal_number long_digit_run"
    unfolding long_digit_run_def by (rule decimal_number_replicate_pos[OF d _ n]) simp
qed

lemma rating_from_text:
  "rating_from (Inr t) =
     (case py_float (strip (replace grade_label [] t)) of Inl e \<Rightarrow> None | Inr x \<Rightarrow> Some x)"
proof -
  have "strip (replace grade_label [] (strip t)) = strip (replace grade_label [] t)"
    using labels_no_space(1,2) by (rule strip_replace_strip)
  then show ?thesis
    by (simp add: rating_from_def rating_of_text_def Let_def)
qed


section \<open>The claims\<close>

subsection \<open>C1\<close>

text \<open>
  C1. A record is in the result exactly when its rating is present and at least
  \<open>min_rating\<close> and its review count is at least \<open>min_reviews\<close>, whatever its price. The
  filter tests \<open>rating < min_rating\<close>, which is false for a rating that is NaN: on a page
  that shows the rating of a card as NaN, the card is returned with the default threshold
  of 4.9, although its rating is not at least 4.9. (With no NaN involved the filter is
  the stated one: lemma \<open>kept_iff_without_nan\<close>.)
\<close>

theorem nan_rating_is_kept:
  "crawl_naver_shopping nan_site pork_belly default_min_rating 100 1 = Inr [record_nan]
   \<and> rating record_nan = NaN
   \<and> \<not> float_ge (rating record_nan) default_min_rating"
  by code_simp

subsection \<open>C2\<close>

text \<open>
  C2. For every sequence of records, the presentation sort returns a permutation of its
  input in which all records with a price come before all records without one, the
  prices that are present are in non-decreasing order, and the records without a price
  keep their input order; the sort is stable, so records with the same price keep their
  input order too.
\<close>

theorem sorted_by_price_order:
  "mset (sorted_by_price data) = mset data
   \<and> sorted_by_price data
       = filter (\<lambda>r. price r \<noteq> None) (sorted_by_price data) @ filter (\<lambda>r. price r = None) data
   \<and> sorted (List.map_filter price (sorted_by_price data))
   \<and> (\<forall>p. filter (\<lambda>r. price r = p) (sorted_by_price data) = filter (\<lambda>r. price r = p) data)"
proof -
  let ?ys = "sorted_by_price data"
  have srt: "sorted (map price_key ?ys)"
    by (simp add: sorted_by_price_def)
  have stable: "filter (\<lambda>r. price r = p) ?ys = filter (\<lambda>r. price r = p) data" for p
  proof -
    define k where "k = (p = None, case p of Some v \<Rightarrow> v | None \<Rightarrow> 999999999)"
    have "price r = p \<longleftrightarrow> price_key r = k" for r
      by (auto simp: price_key_def k_def split: option.splits)
    then show ?thesis
      using sort_key_stable[of price_key k data] by (simp add: sorted_by_price_def)
  qed
  have "?ys = filter (\<lambda>r. price r \<noteq> None) ?ys @ filter (\<lambda>r. \<not> price r \<noteq> None) ?ys"
    using srt by (rule sorted_split) (auto simp: price_key_def)
  then have split: "?ys = filter (\<lambda>r. price r \<noteq> None) ?ys @ filter (\<lambda>r. price r = None) data"
    using stable[of None] by simp
  have "mset ?ys = mset data"
    by (simp add: sorted_by_price_def)
  with split sorted_present_prices[OF srt] stable show ?thesis
    by blast
qed

theorem sorted_by_price_order_witness:
  "sorted_by_price [record_b, record_a, record_c] = [record_c, record_a] @ [record_b]"
proof -
  have "filter (\<lambda>r. price r \<noteq> None) (sorted_by_price [record_b, record_a, record_c]) = [record_c, record_a]"
    by code_simp
  moreover have "filter (\<lambda>r. price r = None) [record_b, record_a, record_c] = [record_b]"
    by code_simp
  ultimately show ?thesis
    using sorted_by_price_order[of "[record_b, record_a, record_c]"] by simp
qed

subsection \<open>C3\<close>

text \<open>
  C3, amended. A loaded page without item blocks adds no record and the loop goes on to
  the next page: when the keyword can be quoted and every page from 1 to \<open>max_pages\<close>
  loads, the result is the concatenation of the pages' records in page order. A
  navigation failure is not caught: when a page does not load after the pages before it
  have loaded, the call fails with the error of that page.
\<close>

theorem crawl_result_by_page_loads:
  "(quote kw = Inr q \<and> (\<forall>i \<in> set [1..max_pages]. goto (base_url q (py_str i)) = Inr (docs i)) \<longrightarrow>
      crawl_naver_shopping goto kw mr mv max_pages
        = Inr (concat (map (\<lambda>i. crawl_page mr mv (docs i)) [1..max_pages])))
   \<and> (locate_items doc = [] \<longrightarrow> crawl_page mr mv doc = [])
   \<and> (quote kw = Inr q \<and> 1 \<le> i \<and> i \<le> max_pages
        \<and> goto' (base_url q (py_str i)) = Inl e
        \<and> (\<forall>j \<in> set [1..i - 1]. goto' (base_url q (py_str j)) = Inr (docs' j)) \<longrightarrow>
      crawl_naver_shopping goto' kw mr mv max_pages = Inl e)"
proof -
  have a: "crawl_naver_shopping goto kw mr mv max_pages
        = Inr (concat (map (\<lambda>i. crawl_page mr mv (docs i)) [1..max_pages]))"
    if "quote kw = Inr q" "\<forall>i \<in> set [1..max_pages]. goto (base_url q (py_str i)) = Inr (docs i)"
    using that crawl_pages_all_loaded[where goto = goto and kw = kw and q = q and docs = docs
        and idxs = "[1..max_pages]" and acc = "[]" and mr = mr and mv = mv]
    by (simp add: crawl_naver_shopping_def)
  have b: "crawl_page mr mv doc = []" if "locate_items doc = []"
    using that by (simp add: crawl_page_def)
  have c: "crawl_naver_shopping goto' kw mr mv max_pages = Inl e"
    if "quote kw = Inr q" "1 \<le> i" "i \<le> max_pages" "goto' (base_url q (py_str i)) = Inl e"
      "\<forall>j \<in> set [1..i - 1]. goto' (base_url q (py_str j)) = Inr (docs' j)"
  proof -
    have "[1..max_pages] = [1..i - 1] @ i # [i + 1..max_pages]"
      using that(2,3) by (rule upto_split3)
    then show ?thesis
      using that(1,4,5) crawl_pages_first_failure[where goto = goto' and kw = kw and q = q
          and docs = docs' and pre = "[1..i - 1]" and i = i and e = e
          and post = "[i + 1..max_pages]" and acc = "[]" and mr = mr and mv = mv]
      by (simp add: crawl_naver_shopping_def)
  qed
  from a b c show ?thesis by blast
qed

theorem crawl_result_by_page_loads_witness:
  "quote pork_belly = Inr pork_belly_quoted
   \<and> crawl_naver_shopping scenario_site pork_belly default_min_rating 100 2
       = Inr [record_a, record_b, record_c]
   \<and> locate_items page_two = []
   \<and> crawl_page default_min_rating 100 page_two = []
   \<and> failing_site (base_url pork_belly_quoted (py_str 1)) = Inr page_one
   \<and> failing_site (base_url pork_belly_quoted (py_str 2)) = Inl NavigationError
   \<and> crawl_naver_shopping failing_site pork_belly default_min_rating 100 2 = Inl NavigationError"
proof -
  note t = crawl_result_by_page_loads[of pork_belly pork_belly_quoted 2 scenario_site
      scenario_docs default_min_rating 100 page_two 2 failing_site NavigationError scenario_docs]
  have q: "quote pork_belly = Inr pork_belly_quoted"
    by code_simp
  have h1: "\<forall>i \<in> set [1..2]. scenario_site (base_url pork_belly_quoted (py_str i))
      = Inr (scenario_docs i)"
    by code_simp
  have h2: "locate_items page_two = []"
    by code_simp
  have h3: "(1::int) \<le> 2 \<and> (2::int) \<le> 2
      \<and> failing_site (base_url pork_belly_quoted (py_str 2)) = Inl NavigationError
      \<and> (\<forall>j \<in> set [1..2 - 1]. failing_site (base_url pork_belly_quoted (py_str j))
            = Inr (scenario_docs j))"
    by code_simp
  have ev: "concat (map (\<lambda>i. crawl_page default_min_rating 100 (scenario_docs i)) [1..2])
      = [record_a, record_b, record_c]"
    by code_simp
  have f1: "failing_site (base_url pork_belly_quoted (py_str 1)) = Inr page_one"
    by code_simp
  from t q h1 ev have c1: "crawl_naver_shopping scenario_site pork_belly default_min_rating 100 2
     = Inr [record_a, record_b, record_c]"
    by simp
  from t h2 have c2: "crawl_page default_min_rating 100 page_two = []"
    by blast
  from t q h3 have c3: "crawl_naver_shopping failing_site pork_belly default_min_rating 100 2
     = Inl NavigationError"
    by blast
  from q c1 h2 c2 f1 h3 c3 show ?thesis by blast
qed

text \<open>
  As first stated, C3 says that no page-load failure makes the call fail. Here page 1
  loads and page 2 does not: the call fails, and the records of page 1 are not returned.
\<close>

theorem page_load_failure_counterexample:
  "page_url pork_belly 1 = Inr (base_url pork_belly_quoted (py_str 1))
   \<and> failing_site (base_url pork_belly_quoted (py_str 1)) = Inr page_one
   \<and> page_url pork_belly 2 = Inr (base_url pork_belly_quoted (py_str 2))
   \<and> failing_site (base_url pork_belly_quoted (py_str 2)) = Inl NavigationError
   \<and> crawl_naver_shopping failing_site pork_belly default_min_rating 100 2 = Inl NavigationError"
  by code_simp

subsection \<open>C4\<close>

text \<open>
  C4, amended. A candidate block whose title lookup fails (the title element is absent,
  or the lookup raises for another reason) produces no record at all.
\<close>

theorem untitled_block_is_skipped:
  "(locator item title_selector = [] \<longrightarrow> appended (process_item mr mv item) = None)
   \<and> (inner_text_of (locator item title_selector) = Inl e \<longrightarrow>
        appended (process_item mr mv item) = None)"
  by (auto simp: process_item_cases extract_name_def name_from_def inner_text_of_def)

theorem untitled_block_is_skipped_witness:
  "locator card_untitled title_selector = []
   \<and> inner_text_of (locator card_untitled title_selector) = Inl TimeoutError
   \<and> appended (process_item default_min_rating 100 card_untitled) = None"
proof -
  have h1: "locator card_untitled title_selector = []"
    by code_simp
  have h2: "inner_text_of (locator card_untitled title_selector) = Inl TimeoutError"
    by code_simp
  from untitled_block_is_skipped[of card_untitled default_min_rating 100 TimeoutError] h1 h2
  show ?thesis by blast
qed

text \<open>
  As first stated, C4 also covers a title element whose trimmed text is empty. Such a
  block raises nothing: it is kept with an empty name when its rating and its review
  count qualify.
\<close>

theorem blank_title_counterexample:
  "inner_text_of (locator card_blank_title title_selector) = Inr (ustr ''  '')
   \<and> strip (ustr ''  '') = []
   \<and> appended (process_item default_min_rating 100 card_blank_title) = Some record_blank
   \<and> crawl_page default_min_rating 100 (results_page [card_blank_title]) = [record_blank]"
  by code_simp

subsection \<open>C5\<close>

text \<open>
  C5, amended. The price is absent when the lookup of the price element fails. Otherwise
  the commas and the currency unit are removed from the text and the rest is trimmed: if
  what remains is a non-empty run of at most 4300 decimal digits (the most that \<open>int\<close>
  converts) the price is the non-negative integer they denote, and in every other case
  it is absent. No exception leaves the extraction. The text 12,900 followed by the
  currency unit gives 12900, and a text without digits gives no price.
\<close>

theorem price_parse:
  "price_from (Inl e) = None
   \<and> price_from (Inr t) =
       (let r = strip (replace won [] (replace comma [] t))
        in if all_decimal r \<and> length r \<le> 4300 then Some (decimal_number r) else None)
   \<and> 0 \<le> decimal_number r
   \<and> price_from (Inr (ustr ''12,900'' @ won)) = Some 12900
   \<and> price_from (Inr price_on_request) = None"
proof -
  have "price_from (Inl e) = None"
    by (simp add: price_from_def)
  moreover have "price_from (Inr (ustr ''12,900'' @ won)) = Some 12900"
    by code_simp
  moreover have "price_from (Inr price_on_request) = None"
    by code_simp
  ultimately show ?thesis
    using price_from_text decimal_number_nonneg by blast
qed

theorem price_parse_witness:
  "all_decimal (ustr ''5000'')
   \<and> price_from (Inr (ustr '' 5,000'' @ won @ ustr '' '')) = Some 5000
   \<and> \<not> all_decimal [0xB2]
   \<and> price_from (Inr [0xB2]) = None"
proof -
  have r1: "strip (replace won [] (replace comma [] (ustr '' 5,000'' @ won @ ustr '' ''))) = ustr ''5000''"
    by code_simp
  have d1: "all_decimal (ustr ''5000'')" "decimal_number (ustr ''5000'') = 5000"
    "length (ustr ''5000'') \<le> 4300"
    by code_simp+
  have r2: "strip (replace won [] (replace comma [] [0xB2])) = [0xB2]"
    by code_simp
  have d2: "\<not> all_decimal [0xB2]"
    by code_simp
  from price_parse[of TimeoutError "ustr '' 5,000'' @ won @ ustr '' ''" "[]"] r1 d1
  have a: "price_from (Inr (ustr '' 5,000'' @ won @ ustr '' '')) = Some 5000"
    by (simp add: Let_def)
  from price_parse[of TimeoutError "[0xB2]" "[]"] r2 d2
  have b: "price_from (Inr [0xB2]) = None"
    by (simp add: Let_def)
  from d1 a d2 b show ?thesis by blast
qed

text \<open>
  As first stated, C5 gives every run of decimal digits its integer. For a run of more
  than 4300 digits \<open>int\<close> raises, and the price is absent.
\<close>

theorem long_price_counterexample:
  "all_decimal long_digit_run
   \<and> strip (replace won [] (replace comma [] long_digit_run)) = long_digit_run
   \<and> length long_digit_run = 4301
   \<and> py_int long_digit_run = Inl ValueError
   \<and> price_from (Inr long_digit_run) = None"
proof -
  note r = long_digit_run_facts
  have i: "py_int long_digit_run = Inl ValueError"
    using py_int_decimal[OF r(1)] r(4) by (simp add: int_max_str_digits_def)
  have "price_from (Inr long_digit_run) = None"
    using price_from_text[of long_digit_run] r(1,2,4) by (simp add: Let_def)
  with r i show ?thesis by blast
qed

subsection \<open>C6\<close>

text \<open>
  C6, amended. The review count is 0 when the lookup of the review element fails.
  Otherwise the review label and the commas are removed from the text and the rest is
  trimmed: if what remains is a non-empty run of at most 4300 decimal digits (the most
  that \<open>int\<close> converts) the count is the integer they denote, and in every other case
  it is 0. The label followed by 1,234 gives 1234, and the label followed by a word
  gives 0.
\<close>

theorem reviews_parse:
  "reviews_from (Inl e) = 0
   \<and> reviews_from (Inr t) =
       (let r = strip (replace comma [] (replace review_label [] t))
        in if all_decimal r \<and> length r \<le> 4300 then decimal_number r else 0)
   \<and> reviews_from (Inr (review_label @ ustr '' 1,234'')) = 1234
   \<and> reviews_from (Inr no_reviews) = 0"
proof -
  have "reviews_from (Inl e) = 0"
    by (simp add: reviews_from_def)
  moreover have "reviews_from (Inr (review_label @ ustr '' 1,234'')) = 1234"
    by code_simp
  moreover have "reviews_from (Inr no_reviews) = 0"
    by code_simp
  ultimately show ?thesis
    using reviews_from_text by blast
qed

theorem reviews_parse_witness:
  "all_decimal (ustr ''2000'')
   \<and> reviews_from (Inr (ustr '' '' @ review_label @ ustr '' 2,000 '')) = 2000
   \<and> \<not> all_decimal (ustr ''(12)'')
   \<and> reviews_from (Inr (ustr ''(12)'')) = 0"
proof -
  have r1: "strip (replace comma [] (replace review_label [] (ustr '' '' @ review_label @ ustr '' 2,000 ''))) = ustr ''2000''"
    by code_simp
  have d1: "all_decimal (ustr ''2000'')" "decimal_number (ustr ''2000'') = 2000"
    "length (ustr ''2000'') \<le> 4300"
    by code_simp+
  have r2: "strip (replace comma [] (replace review_label [] (ustr ''(12)''))) = ustr ''(12)''"
    by code_simp
  have d2: "\<not> all_decimal (ustr ''(12)'')"
    by code_simp
  from reviews_parse[of TimeoutError "ustr '' '' @ review_label @ ustr '' 2,000 ''"] r1 d1
  have a: "reviews_from (Inr (ustr '' '' @ review_label @ ustr '' 2,000 '')) = 2000"
    by (simp add: Let_def)
  from reviews_parse[of TimeoutError "ustr ''(12)''"] r2 d2
  have b: "reviews_from (Inr (ustr ''(12)'')) = 0"
    by (simp add: Let_def)
  from d1 a d2 b show ?thesis by blast
qed

text \<open>
  As first stated, C6 gives every run of decimal digits its integer. For a run of more
  than 4300 digits \<open>int\<close> raises, and the count is 0 although the digits denote a
  positive number.
\<close>

theorem long_review_count_counterexample:
  "all_decimal long_digit_run
   \<and> strip (replace comma [] (replace review_label [] long_digit_run)) = long_digit_run
   \<and> length long_digit_run = 4301
   \<and> 0 < decimal_number long_digit_run
   \<and> reviews_from (Inr long_digit_run) = 0"
proof -
  note r = long_digit_run_facts
  have "reviews_from (Inr long_digit_run) = 0"
    using reviews_from_text[of long_digit_run] r(1,3,4) by (simp add: Let_def)
  with r show ?thesis by blast
qed

subsection \<open>C7\<close>

text \<open>
  C7. The rating is absent when the lookup of the rating element fails. Otherwise the
  rating label is removed from the text, the rest is trimmed and read by \<open>float\<close>; when
  that fails the rating is absent. The label followed by 4.95 gives the float 4.95. A
  block with an absent rating adds no record, whatever the thresholds.
\<close>

theorem rating_parse:
  "rating_from (Inl e) = None
   \<and> rating_from (Inr t) =
       (case py_float (strip (replace grade_label [] t)) of Inl e' \<Rightarrow> None | Inr x \<Rightarrow> Some x)
   \<and> py_float (ustr ''4.95'') = Inr (Finite (5573204538870989 / 1125899906842624))
   \<and> rating_from (Inr (grade_label @ ustr ''4.95''))
       = Some (Finite (5573204538870989 / 1125899906842624))
   \<and> (extract_rating item = None \<longrightarrow> appended (process_item mr mv item) = None)"
proof -
  have "rating_from (Inl e) = None"
    by (simp add: rating_from_def)
  moreover have "py_float (ustr ''4.95'') = Inr (Finite (5573204538870989 / 1125899906842624))"
    by code_simp
  moreover have "rating_from (Inr (grade_label @ ustr ''4.95''))
       = Some (Finite (5573204538870989 / 1125899906842624))"
    by code_simp
  moreover have "appended (process_item mr mv item) = None" if "extract_rating item = None"
    using that by (simp add: process_item_cases split: sum.splits)
  ultimately show ?thesis
    using rating_from_text by blast
qed

theorem rating_parse_witness:
  "extract_rating card_unrated = None
   \<and> appended (process_item default_min_rating 100 card_unrated) = None
   \<and> rating_from (Inr (ustr ''new'')) = None
   \<and> appended (process_item default_min_rating 100 card_a) = Some record_a"
proof -
  have h: "extract_rating card_unrated = None"
    by code_simp
  have f: "py_float (strip (replace grade_label [] (ustr ''new''))) = Inl ValueError"
    by code_simp
  have k: "appended (process_item default_min_rating 100 card_a) = Some record_a"
    by code_simp
  note t = rating_parse[of TimeoutError "ustr ''new''" card_unrated default_min_rating 100]
  from t h have a: "appended (process_item default_min_rating 100 card_unrated) = None"
    by blast
  from t f have b: "rating_from (Inr (ustr ''new'')) = None"
    by simp
  from h a b k show ?thesis by blast
qed

subsection \<open>C8\<close>

text \<open>
  C8, amended. No fault of a lookup or of a parse leaves the processing of a block. A
  fault of the title lookup makes the block void, and then the three other lookups are
  not made. When the title lookup succeeds all four lookups are made, whatever faults
  occur: a fault in the price extraction gives an absent price, a fault in the rating
  extraction an absent rating, a fault in the review extraction the count 0, and the
  record is decided and built from the four outcomes, each of which depends on the
  lookup of its own sub-element alone.
\<close>

theorem field_faults_are_isolated:
  "(inner_text_of (locator item0 title_selector) = Inl e \<longrightarrow>
      process_item mr mv item0 = \<lparr>attempted = [title_selector], appended = None\<rparr>)
   \<and> (inner_text_of (locator item title_selector) = Inr t \<longrightarrow>
      process_item mr mv item =
        \<lparr>attempted = [title_selector, price_selector, grade_selector, review_selector],
         appended =
           (case rating_from (inner_text_of (locator item grade_selector)) of
              None \<Rightarrow> None
            | Some x \<Rightarrow>
                if float_lt x mr
                   \<or> reviews_from (inner_text_of (locator item review_selector)) < mv
                then None
                else Some \<lparr>name = strip t,
                           price = price_from (inner_text_of (locator item price_selector)),
                           rating = x,
                           reviews = reviews_from (inner_text_of (locator item review_selector))\<rparr>)\<rparr>)
   \<and> price_from (Inl e1) = None
   \<and> (price_of_text t1 = Inl e1 \<longrightarrow> price_from (Inr t1) = None)
   \<and> rating_from (Inl e2) = None
   \<and> (rating_of_text t2 = Inl e2 \<longrightarrow> rating_from (Inr t2) = None)
   \<and> reviews_from (Inl e3) = 0
   \<and> (reviews_of_text t3 = Inl e3 \<longrightarrow> reviews_from (Inr t3) = 0)"
proof -
  have a: "process_item mr mv item0 = \<lparr>attempted = [title_selector], appended = None\<rparr>"
    if "inner_text_of (locator item0 title_selector) = Inl e"
    using that by (simp add: process_item_cases extract_name_def name_from_def)
  have b: "process_item mr mv item =
        \<lparr>attempted = [title_selector, price_selector, grade_selector, review_selector],
         appended =
           (case rating_from (inner_text_of (locator item grade_selector)) of
              None \<Rightarrow> None
            | Some x \<Rightarrow>
                if float_lt x mr
                   \<or> reviews_from (inner_text_of (locator item review_selector)) < mv
                then None
                else Some \<lparr>name = strip t,
                           price = price_from (inner_text_of (locator item price_selector)),
                           rating = x,
                           reviews = reviews_from (inner_text_of (locator item review_selector))\<rparr>)\<rparr>"
    if "inner_text_of (locator item title_selector) = Inr t"
    using that unfolding process_item_cases extract_name_def extract_price_def
      extract_rating_def extract_reviews_def
    by (simp add: name_from_def)
  have c: "price_from (Inl e1) = None" "rating_from (Inl e2) = None" "reviews_from (Inl e3) = 0"
    by (simp_all add: price_from_def rating_from_def reviews_from_def)
  have d: "price_from (Inr t1) = None" if "price_of_text t1 = Inl e1"
    using that by (simp add: price_from_def)
  have f: "rating_from (Inr t2) = None" if "rating_of_text t2 = Inl e2"
    using that by (simp add: rating_from_def)
  have g: "reviews_from (Inr t3) = 0" if "reviews_of_text t3 = Inl e3"
    using that by (simp add: reviews_from_def)
  from a b c d f g show ?thesis by blast
qed

theorem field_faults_are_isolated_witness:
  "inner_text_of (locator card_untitled title_selector) = Inl TimeoutError
   \<and> process_item default_min_rating 0 card_untitled
       = \<lparr>attempted = [title_selector], appended = None\<rparr>
   \<and> inner_text_of (locator card_partial title_selector) = Inr (ustr ''P'')
   \<and> inner_text_of (locator card_partial price_selector) = Inl TimeoutError
   \<and> inner_text_of (locator card_partial grade_selector) = Inr (grade_label @ ustr ''5.0'')
   \<and> inner_text_of (locator card_partial review_selector) = Inr [0xB2]
   \<and> reviews_of_text [0xB2] = Inl ValueError
   \<and> reviews_from (Inr [0xB2]) = 0
   \<and> process_item default_min_rating 0 card_partial
       = \<lparr>attempted = [title_selector, price_selector, grade_selector, review_selector],
          appended = Some record_partial\<rparr>
   \<and> price_of_text [0xB2] = Inl ValueError \<and> price_from (Inr [0xB2]) = None
   \<and> rating_of_text (ustr ''new'') = Inl ValueError \<and> rating_from (Inr (ustr ''new'')) = None"
proof -
  note t = field_faults_are_isolated[of card_untitled TimeoutError default_min_rating 0
      card_partial "ustr ''P''" ValueError "[0xB2]" ValueError "ustr ''new''" ValueError "[0xB2]"]
  have h1: "inner_text_of (locator card_untitled title_selector) = Inl TimeoutError"
    by code_simp
  have h2: "inner_text_of (locator card_partial title_selector) = Inr (ustr ''P'')"
    by code_simp
  have h3: "inner_text_of (locator card_partial price_selector) = Inl TimeoutError"
    "inner_text_of (locator card_partial grade_selector) = Inr (grade_label @ ustr ''5.0'')"
    "inner_text_of (locator card_partial review_selector) = Inr [0xB2]"
    by code_simp+
  have h4: "price_of_text [0xB2] = Inl ValueError"
    by code_simp
  have h5: "rating_of_text (ustr ''new'') = Inl ValueError"
    by code_simp
  have h6: "reviews_of_text [0xB2] = Inl ValueError"
    by code_simp
  have ev: "(case rating_from (Inr (grade_label @ ustr ''5.0'')) of
              None \<Rightarrow> None
            | Some x \<Rightarrow>
                if float_lt x default_min_rating \<or> reviews_from (Inr [0xB2]) < 0 then None
                else Some \<lparr>name = strip (ustr ''P''), price = price_from (Inl TimeoutError),
                           rating = x, reviews = reviews_from (Inr [0xB2])\<rparr>)
      = Some record_partial"
    by code_simp
  from t h1 have c1: "process_item default_min_rating 0 card_untitled
       = \<lparr>attempted = [title_selector], appended = None\<rparr>"
    by blast
  from t h2 have p: "process_item default_min_rating 0 card_partial =
        \<lparr>attempted = [title_selector, price_selector, grade_selector, review_selector],
         appended =
           (case rating_from (inner_text_of (locator card_partial grade_selector)) of
              None \<Rightarrow> None
            | Some x \<Rightarrow>
                if float_lt x default_min_rating
                   \<or> reviews_from (inner_text_of (locator card_partial review_selector)) < 0
                then None
                else Some \<lparr>name = strip (ustr ''P''),
                           price = price_from (inner_text_of (locator card_partial price_selector)),
                           rating = x,
                           reviews = reviews_from (inner_text_of (locator card_partial review_selector))\<rparr>)\<rparr>"
    by blast
  have c2: "process_item default_min_rating 0 card_partial
       = \<lparr>attempted = [title_selector, price_selector, grade_selector, review_selector],
          appended = Some record_partial\<rparr>"
    unfolding p h3 ev by (rule refl)
  from t h4 have c4: "price_from (Inr [0xB2]) = None" by blast
  from t h5 have c5: "rating_from (Inr (ustr ''new'')) = None" by blast
  from t h6 have c6: "reviews_from (Inr [0xB2]) = 0" by blast
  from h1 c1 h2 h3 h6 c6 c2 h4 c4 h5 c5 show ?thesis by blast
qed

text \<open>
  As first stated, C8 says that a fault in one field never keeps the other three
  extractions from running. For a block without a title only the title lookup is made,
  although its price, rating and review elements are there.
\<close>

theorem untitled_block_counterexample:
  "attempted (process_item default_min_rating 100 card_untitled) = [title_selector]
   \<and> inner_text_of (locator card_untitled price_selector) = Inr (ustr ''7,000'' @ won)
   \<and> inner_text_of (locator card_untitled grade_selector) = Inr (grade_label @ ustr ''5.0'')
   \<and> inner_text_of (locator card_untitled review_selector) = Inr (review_label @ ustr '' 300'')"
  by code_simp

subsection \<open>C9\<close>



subsection \<open>C10\<close>

text \<open>
  C10. On every rendered document the fallback selector matches only elements that the
  primary selector matches. So when the primary lookup finds nothing the fallback lookup
  finds nothing either, and the item blocks of a page are always those of the primary
  selector.
\<close>

theorem fallback_adds_nothing:
  "set (page_locator doc fallback_selector) \<subseteq> set (page_locator doc primary_selector)
   \<and> (page_locator doc primary_selector = [] \<longrightarrow> page_locator doc fallback_selector = [])
   \<and> locate_items doc = page_locator doc primary_selector"
  using fallback_within_primary[of doc] fallback_empty[of doc]
  by (auto simp: locate_items_cases)

theorem fallback_adds_nothing_witness:
  "page_locator page_two primary_selector = []
   \<and> page_locator page_two fallback_selector = []
   \<and> locate_items page_one = page_locator page_one primary_selector
   \<and> page_locator page_one fallback_selector = [card_a, card_c]
   \<and> page_locator page_one primary_selector = [card_a, card_low, card_b, card_c]"
proof -
  have h: "page_locator page_two primary_selector = []"
    by code_simp
  have e: "page_locator page_one fallback_selector = [card_a, card_c]"
    "page_locator page_one primary_selector = [card_a, card_low, card_b, card_c]"
    by code_simp+
  from fallback_adds_nothing[of page_two] h
  have c: "page_locator page_two fallback_selector = []"
    by blast
  from fallback_adds_nothing[of page_one]
  have d: "locate_items page_one = page_locator page_one primary_selector"
    by blast
  from h c d e show ?thesis by blast
qed


end
